theory Spec2Isabelle
  imports Main
begin

section \<open>Python values used by the assembler\<close>

text \<open>
  The assembler (\<^verbatim>\<open>src/g1asm/assembler.py\<close>) is a Python program. Strings are modelled
  as lists of characters, a character being a code point below 256; Python's unbounded
  integers as \<^typ>\<open>int\<close>; and every exception the code can raise as a value of \<open>exn\<close>.
  The model covers \<^verbatim>\<open>assemble\<close> from the text of the input file to the dictionary
  \<^verbatim>\<open>output_json\<close>, together with the text printed on the way.
\<close>

abbreviation nl :: char where "nl \<equiv> CHR 0x0A"
abbreviation dq :: char where "dq \<equiv> CHR 0x22"

record source_pos =
  idx :: nat
  lineno :: int
  colno :: int

datatype exn = SystemExit | StopIteration | ValueError | KeyError | IndexError
  | LexingError source_pos

definition is_digit :: "char \<Rightarrow> bool" where
  "is_digit c = (48 \<le> (of_char c :: nat) \<and> (of_char c :: nat) \<le> 57)"

definition digit_val :: "char \<Rightarrow> nat" where
  "digit_val c = of_char c - 48"

definition digit_char :: "nat \<Rightarrow> char" where
  "digit_char d = char_of (48 + d)"

text \<open>
  \<^verbatim>\<open>str(n)\<close> for an integer: decimal digits, with a leading minus sign when negative.
  The numbers the assembler prints (line numbers and argument counts) are far below the
  4300 digits at which CPython refuses the conversion, so that limit is left out here.
\<close>

function str_nat :: "nat \<Rightarrow> string" where
  "str_nat n = (if n < 10 then [digit_char n] else str_nat (n div 10) @ [digit_char (n mod 10)])"
  by pat_completeness auto
termination
  by (relation "measure id") auto

declare str_nat.simps [simp del]

definition py_str :: "int \<Rightarrow> string" where
  "py_str i = (if i < 0 then CHR ''-'' # str_nat (nat (- i)) else str_nat (nat i))"

text \<open>
  \<^verbatim>\<open>int(s)\<close> for a string: surrounding whitespace is stripped, then an optional sign and
  decimal digits, where single underscores may separate digits; anything else raises
  ValueError (\<open>None\<close>). The whitespace \<^verbatim>\<open>int\<close> strips is the ASCII whitespace (code
  points 9 to 13 and 32) and, of the code points from 128 to 255, the two Unicode spaces
  0x85 and 0xA0; the separators 28 to 31 are not stripped. A text of more than
  \<open>max_str_digits\<close> digits (4300, the default of \<^verbatim>\<open>sys.set_int_max_str_digits\<close>) raises
  ValueError too, whatever its value.
\<close>

definition is_space :: "char \<Rightarrow> bool" where
  "is_space c = (let n = (of_char c :: nat) in
     (9 \<le> n \<and> n \<le> 13) \<or> n = 32 \<or> n = 0x85 \<or> n = 0xA0)"

definition max_str_digits :: nat where
  "max_str_digits = 4300"

definition strip :: "string \<Rightarrow> string" where
  "strip s = rev (dropWhile is_space (rev (dropWhile is_space s)))"

fun digits_value :: "nat \<Rightarrow> string \<Rightarrow> nat option" where
  "digits_value acc [] = Some acc"
| "digits_value acc (c # cs) =
     (if is_digit c then digits_value (acc * 10 + digit_val c) cs
      else if c = CHR ''_'' \<and> cs \<noteq> [] \<and> is_digit (hd cs) then digits_value acc cs
      else None)"

definition unsigned_value :: "string \<Rightarrow> nat option" where
  "unsigned_value s = (case s of [] \<Rightarrow> None
     | c # cs \<Rightarrow>
         if is_digit c then
           (if length (filter is_digit (c # cs)) > max_str_digits then None
            else digits_value 0 (c # cs))
         else None)"

definition py_int :: "string \<Rightarrow> int option" where
  "py_int s = (case strip s of
       [] \<Rightarrow> None
     | c # cs \<Rightarrow>
         if c = CHR ''-'' then map_option (\<lambda>n. - int n) (unsigned_value cs)
         else if c = CHR ''+'' then map_option int (unsigned_value cs)
         else map_option int (unsigned_value (c # cs)))"

text \<open>\<^verbatim>\<open>xs[i]\<close>: a negative index counts from the end, an index out of range raises IndexError.\<close>

definition py_index :: "'a list \<Rightarrow> int \<Rightarrow> 'a option" where
  "py_index xs i =
     (let n = int (length xs); j = (if i < 0 then n + i else i)
      in if 0 \<le> j \<and> j < n then Some (xs ! nat j) else None)"

text \<open>\<^verbatim>\<open>s.split('\n')\<close>: the pieces between line feeds; always at least one piece.\<close>

fun split_nl :: "string \<Rightarrow> string list" where
  "split_nl [] = [[]]"
| "split_nl (c # cs) =
     (if c = nl then [] # split_nl cs
      else (case split_nl cs of l # ls \<Rightarrow> (c # l) # ls | [] \<Rightarrow> [[c]]))"

section \<open>Tokens\<close>

datatype token_name = META_VARIABLE | NUMBER | ADDRESS | LABEL_NAME | NAME | COMMENT | NEWLINE

record token =
  tname :: token_name
  tvalue :: string
  source_pos :: source_pos


section \<open>The lexer\<close>

text \<open>
  The lexer is built with rply's \<^verbatim>\<open>LexerGenerator\<close> from the rules of lines 26 to 35. Each
  rule is a regular expression, tried with \<^verbatim>\<open>re.match\<close> at the current index; a rule is
  modelled by the function that gives the length of its match on the text that starts at
  that index (\<open>None\<close>: no match). Every pattern is a sequence of greedy pieces none of
  which can give back a character to the next, so the match is the maximal one.
  Over 8-bit characters \<^verbatim>\<open>\d\<close> is \<^verbatim>\<open>[0-9]\<close>; the class \<^verbatim>\<open>[A-z]\<close> is the
  code points 65 to 122, as written in the source.
\<close>

definition in_A_z :: "char \<Rightarrow> bool" where
  "in_A_z c = (65 \<le> (of_char c :: nat) \<and> (of_char c :: nat) \<le> 122)"

definition in_A_z0_9u :: "char \<Rightarrow> bool" where
  "in_A_z0_9u c = (in_A_z c \<or> is_digit c \<or> c = CHR ''_'')"

text \<open>\<^verbatim>\<open>#[A-z]+\<close>\<close>
definition match_META_VARIABLE :: "string \<Rightarrow> nat option" where
  "match_META_VARIABLE cs = (case cs of
       [] \<Rightarrow> None
     | c # r \<Rightarrow> if c = CHR ''#'' \<and> takeWhile in_A_z r \<noteq> []
         then Some (1 + length (takeWhile in_A_z r)) else None)"

text \<open>\<^verbatim>\<open>-?\d+\<close>\<close>
definition match_NUMBER :: "string \<Rightarrow> nat option" where
  "match_NUMBER cs = (case cs of
       [] \<Rightarrow> None
     | c # r \<Rightarrow>
         if c = CHR ''-'' then
           (if takeWhile is_digit r \<noteq> [] then Some (1 + length (takeWhile is_digit r)) else None)
         else if takeWhile is_digit (c # r) \<noteq> [] then Some (length (takeWhile is_digit (c # r)))
         else None)"

text \<open>\<^verbatim>\<open>\$\d+\<close>\<close>
definition match_ADDRESS :: "string \<Rightarrow> nat option" where
  "match_ADDRESS cs = (case cs of
       [] \<Rightarrow> None
     | c # r \<Rightarrow> if c = CHR ''$'' \<and> takeWhile is_digit r \<noteq> []
         then Some (1 + length (takeWhile is_digit r)) else None)"

text \<open>\<^verbatim>\<open>[A-z0-9_]+:\<close>\<close>
definition match_LABEL_NAME :: "string \<Rightarrow> nat option" where
  "match_LABEL_NAME cs =
     (if takeWhile in_A_z0_9u cs \<noteq> [] \<and> take 1 (dropWhile in_A_z0_9u cs) = '':''
      then Some (length (takeWhile in_A_z0_9u cs) + 1) else None)"

text \<open>\<^verbatim>\<open>[A-z_][A-z0-9_]*\<close>\<close>
definition match_NAME :: "string \<Rightarrow> nat option" where
  "match_NAME cs = (case cs of
       [] \<Rightarrow> None
     | c # r \<Rightarrow> if in_A_z c \<or> c = CHR ''_''
         then Some (1 + length (takeWhile in_A_z0_9u r)) else None)"

text \<open>\<^verbatim>\<open>;.*\<close> (the dot matches every character but the line feed)\<close>
definition match_COMMENT :: "string \<Rightarrow> nat option" where
  "match_COMMENT cs = (case cs of
       [] \<Rightarrow> None
     | c # r \<Rightarrow> if c = CHR '';''
         then Some (1 + length (takeWhile (\<lambda>x. x \<noteq> nl) r)) else None)"

text \<open>\<^verbatim>\<open>\n\<close>\<close>
definition match_NEWLINE :: "string \<Rightarrow> nat option" where
  "match_NEWLINE cs = (case cs of [] \<Rightarrow> None | c # r \<Rightarrow> if c = nl then Some 1 else None)"

text \<open>The ignored rule, a single space.\<close>
definition match_ignore :: "string \<Rightarrow> nat option" where
  "match_ignore cs = (case cs of [] \<Rightarrow> None | c # r \<Rightarrow> if c = CHR '' '' then Some 1 else None)"

definition rules :: "(token_name \<times> (string \<Rightarrow> nat option)) list" where
  "rules = [(META_VARIABLE, match_META_VARIABLE), (NUMBER, match_NUMBER),
     (ADDRESS, match_ADDRESS), (LABEL_NAME, match_LABEL_NAME), (NAME, match_NAME),
     (COMMENT, match_COMMENT), (NEWLINE, match_NEWLINE)]"

text \<open>The first rule, in the order of declaration, that matches.\<close>
fun first_match :: "(token_name \<times> (string \<Rightarrow> nat option)) list \<Rightarrow> string
    \<Rightarrow> (token_name \<times> nat) option" where
  "first_match [] cs = None"
| "first_match ((n, m) # rs) cs =
     (case m cs of Some k \<Rightarrow> Some (n, k) | None \<Rightarrow> first_match rs cs)"

text \<open>
  rply's \<^verbatim>\<open>LexerStream\<close>: the text, the index reached, the current line and the column of
  the last token. \<^verbatim>\<open>_update_pos\<close> moves the index to the end of a match, counts the line
  feeds of the match and returns the 1-based column of its start.
\<close>

record LexerStream =
  stream_s :: string
  stream_idx :: nat
  stream_lineno :: int
  stream_colno :: int

fun rfind_nl :: "string \<Rightarrow> nat option" where
  "rfind_nl [] = None"
| "rfind_nl (c # cs) = (case rfind_nl cs of
       Some k \<Rightarrow> Some (Suc k)
     | None \<Rightarrow> if c = nl then Some 0 else None)"

definition update_pos :: "LexerStream \<Rightarrow> nat \<Rightarrow> nat \<Rightarrow> LexerStream \<times> int" where
  "update_pos st start end =
     (st\<lparr>stream_idx := end,
         stream_lineno := stream_lineno st
           + int (length (filter (\<lambda>c. c = nl) (take (end - start) (drop start (stream_s st)))))\<rparr>,
      (case rfind_nl (take start (stream_s st)) of
         None \<Rightarrow> int start + 1
       | Some last_nl \<Rightarrow> int start - int last_nl))"

text \<open>The loop of \<^verbatim>\<open>next\<close> that passes over ignored text; \<open>None\<close> is the end of the text.\<close>

function skip_ignored :: "LexerStream \<Rightarrow> LexerStream option" where
  "skip_ignored st =
     (if stream_idx st \<ge> length (stream_s st) then None
      else (case match_ignore (drop (stream_idx st) (stream_s st)) of
          Some k \<Rightarrow> skip_ignored (fst (update_pos st (stream_idx st) (stream_idx st + k)))
        | None \<Rightarrow> Some st))"
  by pat_completeness auto
termination
  by (relation "measure (\<lambda>st. length (stream_s st) - stream_idx st)")
     (auto simp: update_pos_def match_ignore_def split: list.splits if_splits)

declare skip_ignored.simps [simp del]

datatype next_result = Token token LexerStream | Stop | Error source_pos

definition "next" :: "LexerStream \<Rightarrow> next_result" where
  "next st0 = (case skip_ignored st0 of
       None \<Rightarrow> Stop
     | Some st \<Rightarrow>
        (case first_match rules (drop (stream_idx st) (stream_s st)) of
           Some (n, k) \<Rightarrow>
             (let start = stream_idx st;
                  ln = stream_lineno st;
                  (st', col) = update_pos st start (start + k)
              in Token \<lparr>tname = n, tvalue = take k (drop start (stream_s st)),
                        source_pos = \<lparr>idx = start, lineno = ln, colno = col\<rparr>\<rparr>
                       (st'\<lparr>stream_colno := col\<rparr>))
         | None \<Rightarrow> Error \<lparr>idx = stream_idx st, lineno = stream_lineno st,
                            colno = stream_colno st\<rparr>))"

text \<open>
  The token stream is lazy; as the lexer does not depend on its consumer, the stream is
  the list of the tokens it yields together with the way it ends: exhausted
  (StopIteration) or failing with a LexingError at a position.
\<close>

datatype stream_end = Exhausted | Fails source_pos


lemma skip_ignored_Some:
  "skip_ignored st = Some st1 \<Longrightarrow>
     stream_s st1 = stream_s st \<and> stream_idx st1 < length (stream_s st1)
     \<and> stream_idx st \<le> stream_idx st1"
proof (induction st rule: skip_ignored.induct)
  case (1 st)
  show ?case
  proof (cases "match_ignore (drop (stream_idx st) (stream_s st))")
    case None
    with "1.prems" show ?thesis
      by (simp add: skip_ignored.simps [of st] split: if_splits)
  next
    case (Some k)
    with "1.prems" have lt: "stream_idx st < length (stream_s st)"
      and rec: "skip_ignored (fst (update_pos st (stream_idx st) (stream_idx st + k))) = Some st1"
      by (simp_all add: skip_ignored.simps [of st] split: if_splits)
    from lt have "\<not> length (stream_s st) \<le> stream_idx st" by simp
    from "1.IH" [OF this Some rec] lt show ?thesis
      by (auto simp: update_pos_def)
  qed
qed

lemma first_match_rules_pos: "first_match rules cs = Some (n, k) \<Longrightarrow> 0 < k"
  by (auto simp: rules_def match_META_VARIABLE_def match_NUMBER_def match_ADDRESS_def
      match_LABEL_NAME_def match_NAME_def match_COMMENT_def match_NEWLINE_def
      split: list.splits if_splits option.splits)

lemma next_Token_advances:
  "next st = Token t st' \<Longrightarrow>
     stream_s st' = stream_s st \<and> stream_idx st < stream_idx st'
     \<and> stream_idx st < length (stream_s st)"
  by (auto simp: next_def update_pos_def Let_def split: option.splits prod.splits
      dest!: skip_ignored_Some first_match_rules_pos)

function lex_stream :: "LexerStream \<Rightarrow> token list \<times> stream_end" where
  "lex_stream st = (case next st of
       Stop \<Rightarrow> ([], Exhausted)
     | Error p \<Rightarrow> ([], Fails p)
     | Token t st' \<Rightarrow> (case lex_stream st' of (ts, e) \<Rightarrow> (t # ts, e)))"
  by pat_completeness auto
termination
proof (relation "measure (\<lambda>st. length (stream_s st) - stream_idx st)")
  show "wf (measure (\<lambda>st. length (stream_s st) - stream_idx st))" by simp
next
  fix st t st'
  assume "next st = Token t st'"
  from next_Token_advances [OF this]
  show "(st', st) \<in> measure (\<lambda>st. length (stream_s st) - stream_idx st)"
    by auto
qed

declare lex_stream.simps [simp del]

text \<open>\<^verbatim>\<open>lexer.lex(s)\<close>: a fresh stream at index 0, line 1, column 1.\<close>

definition lex :: "string \<Rightarrow> token list \<times> stream_end" where
  "lex s = lex_stream \<lparr>stream_s = s, stream_idx = 0, stream_lineno = 1, stream_colno = 1\<rparr>"

section \<open>Diagnostics\<close>

definition COLOR_ERROR :: string where "COLOR_ERROR = CHR 0x1B # ''[31m''"
definition COLOR_WARN :: string where "COLOR_WARN = CHR 0x1B # ''[33m''"
definition COLOR_RESET :: string where "COLOR_RESET = CHR 0x1B # ''[0m''"

text \<open>
  \<^verbatim>\<open>error\<close> and \<^verbatim>\<open>warn\<close> read only the \<^verbatim>\<open>source_pos\<close> of their first argument (a token,
  or the LexingError), so the model takes the position. Both return the text they print;
  \<^verbatim>\<open>print(x)\<close> writes \<open>x\<close> and a line feed. \<^verbatim>\<open>error\<close> ends with \<^verbatim>\<open>sys.exit()\<close>, that is
  with SystemExit; \<^verbatim>\<open>source_lines[line_number]\<close> raises IndexError, after the first
  line is printed, when the line does not exist.
\<close>

definition error :: "source_pos \<Rightarrow> string list \<Rightarrow> string \<Rightarrow> exn \<times> string" where
  "error pos source_lines message =
     (let line_number = lineno pos - 1;
          column_number = colno pos - 1;
          out1 = COLOR_ERROR @ ''ASSEMBLER ERROR: '' @ message @ [nl]
      in case py_index source_lines line_number of
           None \<Rightarrow> (IndexError, out1)
         | Some line \<Rightarrow>
             (SystemExit,
              out1 @ py_str (line_number + 1) @ '' | '' @ line @ [nl]
                @ replicate (nat (int (length (py_str line_number)) + 3 + column_number)) CHR '' ''
                @ ''^'' @ [nl]
                @ COLOR_RESET))"

definition warn :: "source_pos \<Rightarrow> string list \<Rightarrow> string \<Rightarrow> (exn \<times> string) + string" where
  "warn pos source_lines message =
     (let line_number = lineno pos - 1;
          column_number = colno pos - 1;
          out1 = COLOR_WARN @ ''ASSEMBLER WARNING: '' @ message @ [nl]
      in case py_index source_lines line_number of
           None \<Rightarrow> Inl (IndexError, out1)
         | Some line \<Rightarrow>
             Inr (out1 @ py_str (line_number + 1) @ '' | '' @ line @ [nl]
                @ replicate (nat (int (length (py_str line_number)) + 3 + column_number)) CHR '' ''
                @ ''^'' @ [nl]
                @ COLOR_RESET))"


section \<open>The assembler\<close>

datatype AssemblerState = META | PROCEDURES

definition META_VARIABLES :: "string \<rightharpoonup> int" where
  "META_VARIABLES = [''memory'' \<mapsto> 128, ''width'' \<mapsto> 100, ''height'' \<mapsto> 100,
     ''tickrate'' \<mapsto> 60]"

definition INT_RANGE_LOWER :: int where "INT_RANGE_LOWER = - (2 ^ 31)"
definition INT_RANGE_UPPER :: int where "INT_RANGE_UPPER = 2 ^ 31 - 1"

text \<open>
  The instruction catalog is imported from \<^verbatim>\<open>g1asm.instructions\<close>, which is not part of
  the sources at hand: the three tables are parameters of the model. \<^verbatim>\<open>INSTRUCTIONS\<close>
  and \<^verbatim>\<open>ASSIGNMENT_INSTRUCTIONS\<close> are only tested for membership, and
  \<^verbatim>\<open>ARGUMENT_COUNT_LOOKUP\<close> is only indexed (a missing key raises KeyError).
\<close>

record catalog =
  INSTRUCTIONS :: "string set"
  ARGUMENT_COUNT_LOOKUP :: "string \<rightharpoonup> int"
  ASSIGNMENT_INSTRUCTIONS :: "string set"

text \<open>A resolved argument is a Python \<^verbatim>\<open>int\<close> or a \<^verbatim>\<open>str\<close>.\<close>

datatype arg = AInt int | AStr string

text \<open>What the exhausted or failing stream raises when \<^verbatim>\<open>tokens.next()\<close> is called.\<close>

definition end_exn :: "stream_end \<Rightarrow> exn" where
  "end_exn e = (case e of Exhausted \<Rightarrow> StopIteration | Fails p \<Rightarrow> LexingError p)"

text \<open>
  \<^verbatim>\<open>get_until_newline\<close> consumes the stream up to and including the next NEWLINE; the
  model returns the collected tokens and the rest of the stream.
\<close>

fun get_until_newline_loop :: "token list \<Rightarrow> token list \<Rightarrow> stream_end
    \<Rightarrow> exn + (token list \<times> token list)" where
  "get_until_newline_loop returned_tokens [] e = Inl (end_exn e)"
| "get_until_newline_loop returned_tokens (token # tokens) e =
     (if tname token = COMMENT then get_until_newline_loop returned_tokens tokens e
      else if tname token = NEWLINE then Inr (returned_tokens, tokens)
      else get_until_newline_loop (returned_tokens @ [token]) tokens e)"

definition get_until_newline :: "token list \<Rightarrow> stream_end
    \<Rightarrow> exn + (token list \<times> token list)" where
  "get_until_newline tokens e = get_until_newline_loop [] tokens e"

text \<open>
  A raised exception is paired with the text printed before it. In
  \<^verbatim>\<open>parse_argument_token\<close> that is the text printed by \<^verbatim>\<open>error\<close>.
\<close>

definition parse_argument_token :: "token \<Rightarrow> (string \<rightharpoonup> int) \<Rightarrow> string list
    \<Rightarrow> (exn \<times> string) + arg" where
  "parse_argument_token token lbls source_lines =
     (if tname token = NUMBER then
        (case py_int (tvalue token) of
           None \<Rightarrow> Inl (ValueError, [])
         | Some parsed \<Rightarrow>
             if parsed < INT_RANGE_LOWER \<or> parsed > INT_RANGE_UPPER then
               Inl (error (source_pos token) source_lines
                 (''Integer value '' @ tvalue token
                    @ '' is outside the 32 bit signed integer range.''))
             else Inr (AInt parsed))
      else if tname token = NAME then
        (case lbls (tvalue token) of
           None \<Rightarrow> Inl (error (source_pos token) source_lines
                 (''Undefined label '' @ [dq] @ tvalue token @ [dq] @ ''.''))
         | Some i \<Rightarrow> Inr (AInt i))
      else if tname token = ADDRESS then
        (case py_int (tl (tvalue token)) of
           None \<Rightarrow> Inl (ValueError, [])
         | Some parsed_address \<Rightarrow>
             if parsed_address < INT_RANGE_LOWER \<or> parsed_address > INT_RANGE_UPPER then
               Inl (error (source_pos token) source_lines
                 (''Address value '' @ tvalue token
                    @ '' is outside the 32 bit signed integer range.''))
             else Inr (AStr (tvalue token)))
      else Inr (AStr (tvalue token)))"

text \<open>The state of the first loop of \<^verbatim>\<open>assemble_tokens\<close>: its local variables and the text
  printed so far.\<close>

record scan_state =
  json_meta :: "string \<rightharpoonup> int"
  labels :: "string \<rightharpoonup> int"
  raw_instructions :: "(token \<times> token list) list"
  instruction_index :: int
  compiler_state :: AssemblerState
  stdout :: string

definition arity_message :: "int \<Rightarrow> string \<Rightarrow> nat \<Rightarrow> string" where
  "arity_message instruction_arg_amount instruction_name_token n =
     ''Expected '' @ py_str instruction_arg_amount @ '' argument(s) for instruction ''
       @ [dq] @ instruction_name_token @ [dq] @ '' but got '' @ py_str (int n) @ ''.''"

lemma get_until_newline_loop_length:
  "get_until_newline_loop acc ts e = Inr (args, rest) \<Longrightarrow> length rest < length ts"
  by (induction ts arbitrary: acc) (auto split: if_splits simp: less_Suc_eq)

lemma get_until_newline_length:
  "get_until_newline ts e = Inr (args, rest) \<Longrightarrow> length rest < length ts"
  unfolding get_until_newline_def by (rule get_until_newline_loop_length)

function assemble_tokens_loop1 :: "catalog \<Rightarrow> string list \<Rightarrow> stream_end \<Rightarrow> token list
    \<Rightarrow> scan_state \<Rightarrow> (exn \<times> string) + scan_state" where
  "assemble_tokens_loop1 cat source_lines e [] st =
     (case e of Exhausted \<Rightarrow> Inr st | Fails p \<Rightarrow> Inl (LexingError p, stdout st))"
| "assemble_tokens_loop1 cat source_lines e (token # tokens) st =
     (if tname token = META_VARIABLE then
        (if compiler_state st \<noteq> META then
           (case error (source_pos token) source_lines
                   ''Found meta variable outside file header.'' of
              (x, out) \<Rightarrow> Inl (x, stdout st @ out))
         else
           (let meta_variable_name = tl (tvalue token) in
            if meta_variable_name \<notin> dom META_VARIABLES then
              (case error (source_pos token) source_lines
                     (''Unrecognized meta variable '' @ [dq] @ meta_variable_name @ [dq] @ ''.'') of
                 (x, out) \<Rightarrow> Inl (x, stdout st @ out))
            else
              (case tokens of
                 [] \<Rightarrow> Inl (end_exn e, stdout st)
               | nxt # tokens' \<Rightarrow>
                   (case py_int (tvalue nxt) of
                      None \<Rightarrow> Inl (ValueError, stdout st)
                    | Some v \<Rightarrow>
                        assemble_tokens_loop1 cat source_lines e tokens'
                          (st\<lparr>json_meta := (json_meta st)(meta_variable_name \<mapsto> v)\<rparr>)))))
      else if tname token = LABEL_NAME then
        (let st1 = (if compiler_state st \<noteq> PROCEDURES
                    then st\<lparr>compiler_state := PROCEDURES\<rparr> else st);
             label_name = butlast (tvalue token) in
         if label_name \<in> dom (labels st1) then
           (case warn (source_pos token) source_lines
                   (''Label '' @ [dq] @ label_name @ [dq] @ '' declared more than once.'') of
              Inl (x, out) \<Rightarrow> Inl (x, stdout st1 @ out)
            | Inr out \<Rightarrow>
                assemble_tokens_loop1 cat source_lines e tokens
                  (st1\<lparr>stdout := stdout st1 @ out\<rparr>))
         else
           assemble_tokens_loop1 cat source_lines e tokens
             (st1\<lparr>labels := (labels st1)(label_name \<mapsto> instruction_index st1)\<rparr>))
      else if tname token = NAME then
        (if tvalue token \<notin> INSTRUCTIONS cat then
           (case error (source_pos token) source_lines
                   (''Unrecognized instruction '' @ [dq] @ tvalue token @ [dq] @ ''.'') of
              (x, out) \<Rightarrow> Inl (x, stdout st @ out))
         else
           (case ARGUMENT_COUNT_LOOKUP cat (tvalue token) of
              None \<Rightarrow> Inl (KeyError, stdout st)
            | Some instruction_arg_amount \<Rightarrow>
                (case get_until_newline tokens e of
                   Inl x \<Rightarrow> Inl (x, stdout st)
                 | Inr (instruction_args, tokens') \<Rightarrow>
                     if int (length instruction_args) \<noteq> instruction_arg_amount then
                       (case error (source_pos token) source_lines
                               (arity_message instruction_arg_amount (tvalue token)
                                  (length instruction_args)) of
                          (x, out) \<Rightarrow> Inl (x, stdout st @ out))
                     else
                       assemble_tokens_loop1 cat source_lines e tokens'
                         (st\<lparr>raw_instructions :=
                               raw_instructions st @ [(token, instruction_args)],
                             instruction_index := instruction_index st + 1\<rparr>))))
      else if tname token \<in> {NUMBER, ADDRESS} then
        (case error (source_pos token) source_lines ''Value outside of instruction.'' of
           (x, out) \<Rightarrow> Inl (x, stdout st @ out))
      else assemble_tokens_loop1 cat source_lines e tokens st)"
  by pat_completeness auto
termination
  by (relation "measure (\<lambda>(cat, source_lines, e, tokens, st). length tokens)")
     (auto dest: get_until_newline_length)


declare assemble_tokens_loop1.simps [simp del]

text \<open>The list comprehension over the argument tokens stops at the first exception.\<close>

fun parse_arguments :: "token list \<Rightarrow> (string \<rightharpoonup> int) \<Rightarrow> string list
    \<Rightarrow> (exn \<times> string) + arg list" where
  "parse_arguments [] lbls source_lines = Inr []"
| "parse_arguments (t # ts) lbls source_lines =
     (case parse_argument_token t lbls source_lines of
        Inl x \<Rightarrow> Inl x
      | Inr a \<Rightarrow> (case parse_arguments ts lbls source_lines of
            Inl x \<Rightarrow> Inl x
          | Inr as \<Rightarrow> Inr (a # as)))"

text \<open>
  A resolved instruction is the list \<^verbatim>\<open>[name, args]\<close>, followed by the 0-based source line
  when \<^verbatim>\<open>include_source\<close> is set.
\<close>

type_synonym instruction_data = "string \<times> arg list \<times> int option"

fun is_small_int :: "arg \<Rightarrow> bool" where
  "is_small_int (AInt i) = (i \<le> 11)"
| "is_small_int (AStr v) = False"

text \<open>The second loop; \<open>acc\<close> is the list \<^verbatim>\<open>instructions\<close>, \<open>out\<close> the text printed so far.\<close>

fun assemble_tokens_loop2 :: "catalog \<Rightarrow> string list \<Rightarrow> bool \<Rightarrow> (string \<rightharpoonup> int)
    \<Rightarrow> (token \<times> token list) list \<Rightarrow> instruction_data list \<Rightarrow> string
    \<Rightarrow> (exn \<times> string) + (instruction_data list \<times> string)" where
  "assemble_tokens_loop2 cat source_lines include_source lbls [] acc out = Inr (acc, out)"
| "assemble_tokens_loop2 cat source_lines include_source lbls
       ((instruction_name_token, instruction_args_tokens) # raw) acc out =
     (let instruction_name = tvalue instruction_name_token in
      case parse_arguments instruction_args_tokens lbls source_lines of
        Inl (x, printed) \<Rightarrow> Inl (x, out @ printed)
      | Inr instruction_args \<Rightarrow>
         (case instruction_args of
            [] \<Rightarrow> Inl (IndexError, out)
          | first_argument # other_arguments \<Rightarrow>
             (let instruction_data =
                    (instruction_name, instruction_args,
                     if include_source
                     then Some (lineno (source_pos instruction_name_token) - 1) else None)
              in
              if instruction_name \<in> ASSIGNMENT_INSTRUCTIONS cat \<and> is_small_int first_argument
              then
                (case instruction_args_tokens of
                   [] \<Rightarrow> Inl (IndexError, out)
                 | first_token # other_tokens \<Rightarrow>
                    (case warn (source_pos first_token) source_lines
                            ''Assignment to a reserved memory location.'' of
                       Inl (x, printed) \<Rightarrow> Inl (x, out @ printed)
                     | Inr printed \<Rightarrow>
                         assemble_tokens_loop2 cat source_lines include_source lbls raw
                           (acc @ [instruction_data]) (out @ printed)))
              else
                assemble_tokens_loop2 cat source_lines include_source lbls raw
                  (acc @ [instruction_data]) out)))"

text \<open>The dictionary \<^verbatim>\<open>output_json\<close>: the keys \<^verbatim>\<open>tick\<close>, \<^verbatim>\<open>start\<close> and \<^verbatim>\<open>source\<close> may be absent.\<close>

record program =
  meta :: "string \<rightharpoonup> int"
  instructions :: "instruction_data list"
  tick :: "int option"
  start :: "int option"
  source :: "string list option"

definition initial_state :: "AssemblerState \<Rightarrow> scan_state" where
  "initial_state cs = \<lparr>json_meta = META_VARIABLES, labels = Map.empty,
     raw_instructions = [], instruction_index = 0, compiler_state = cs, stdout = []\<rparr>"

definition tick_warning :: string where
  "tick_warning = ''WARNING: '' @ [dq] @ ''tick'' @ [dq] @ '' label not found in program.'' @ [nl]"

text \<open>\<^verbatim>\<open>assemble_tokens\<close> returns the program; the model also returns the text printed.\<close>

definition assemble_tokens :: "catalog \<Rightarrow> token list \<times> stream_end \<Rightarrow> string list
    \<Rightarrow> AssemblerState \<Rightarrow> bool \<Rightarrow> (exn \<times> string) + (program \<times> string)" where
  "assemble_tokens cat tokens source_lines cs include_source =
     (case assemble_tokens_loop1 cat source_lines (snd tokens) (fst tokens) (initial_state cs) of
        Inl x \<Rightarrow> Inl x
      | Inr st \<Rightarrow>
         (case assemble_tokens_loop2 cat source_lines include_source (labels st)
                 (raw_instructions st) [] (stdout st) of
            Inl x \<Rightarrow> Inl x
          | Inr (instrs, out) \<Rightarrow>
              Inr (\<lparr>meta = json_meta st, instructions = instrs,
                    tick = labels st ''tick'', start = labels st ''start'',
                    source = (if include_source then Some source_lines else None)\<rparr>,
                   if ''tick'' \<in> dom (labels st) then out else out @ tick_warning)))"

text \<open>
  \<^verbatim>\<open>assemble\<close>, from the text read from the input file to \<^verbatim>\<open>output_json\<close>, before the data
  file is merged and the output is encoded and written. A LexingError raised while the
  tokens are consumed is reported by \<^verbatim>\<open>error\<close>.
\<close>

definition assemble :: "catalog \<Rightarrow> string \<Rightarrow> bool \<Rightarrow> (exn \<times> string) + (program \<times> string)" where
  "assemble cat source_code include_source =
     (let source_lines = split_nl source_code;
          tokens = lex (source_code @ [nl])
      in case assemble_tokens cat tokens source_lines META include_source of
           Inl (LexingError p, out) \<Rightarrow>
             (case error p source_lines ''Unrecognized token.'' of
                (x, printed) \<Rightarrow> Inl (x, out @ printed))
         | Inl (x, out) \<Rightarrow> Inl (x, out)
         | Inr r \<Rightarrow> Inr r)"


section \<open>Reference notions and an example catalog\<close>

text \<open>
  The number of instruction-producing lines of a token sequence, as the spec words it,
  counted without the assembler's state: a line produces an instruction when a NAME token
  stands where a statement begins. A META_VARIABLE takes the token after it as its value, and a mnemonic
  takes every token up to and including the end of its line; label, comment and empty
  lines produce nothing.
\<close>

lemma length_dropWhile_pred: "length (dropWhile P ts) - Suc 0 \<le> length ts"
  using length_dropWhile_le [of P ts] by simp

function instruction_lines :: "token list \<Rightarrow> nat" where
  "instruction_lines [] = 0"
| "instruction_lines (t # ts) =
     (if tname t = META_VARIABLE then instruction_lines (tl ts)
      else if tname t = NAME
        then Suc (instruction_lines (tl (dropWhile (\<lambda>x. tname x \<noteq> NEWLINE) ts)))
      else instruction_lines ts)"
  by pat_completeness auto
termination
  by (relation "measure length") (auto simp: less_Suc_eq_le length_dropWhile_pred)

text \<open>
  Modelled from the spec: the instruction catalog of \<^verbatim>\<open>g1asm.instructions\<close> is missing
  from the sources. The end-to-end example of the spec uses \<^verbatim>\<open>add\<close> with three arguments
  and \<^verbatim>\<open>halt\<close> with none; \<^verbatim>\<open>add\<close> is taken to write to its first argument. This
  catalog is used for concrete runs only: the general statements hold for every catalog.
\<close>

definition demo_catalog :: catalog where
  "demo_catalog = \<lparr>INSTRUCTIONS = {''add'', ''halt''},
     ARGUMENT_COUNT_LOOKUP = [''add'' \<mapsto> 3, ''halt'' \<mapsto> 0],
     ASSIGNMENT_INSTRUCTIONS = {''add''}\<rparr>"

text \<open>
  A program used for concrete runs: a forward reference to \<^verbatim>\<open>foo\<close>, its declaration, a
  backward reference, and a second declaration of \<^verbatim>\<open>foo\<close>. \<open>example_tokens\<close> is what
  the lexer yields for it (lemma \<open>lex_example_source\<close>).
\<close>

definition tk :: "token_name \<Rightarrow> string \<Rightarrow> nat \<Rightarrow> int \<Rightarrow> int \<Rightarrow> token" where
  "tk n v i l c = \<lparr>tname = n, tvalue = v, source_pos = \<lparr>idx = i, lineno = l, colno = c\<rparr>\<rparr>"

definition example_source :: string where
  "example_source =
     ''add $1 foo 3'' @ [nl] @ ''foo:'' @ [nl] @ ''add $1 foo 3'' @ [nl] @ ''foo:''"

definition example_lines :: "string list" where
  "example_lines = [''add $1 foo 3'', ''foo:'', ''add $1 foo 3'', ''foo:'']"

definition example_tokens :: "token list" where
  "example_tokens =
     [tk NAME ''add'' 0 1 1, tk ADDRESS ''$1'' 4 1 5, tk NAME ''foo'' 7 1 8,
      tk NUMBER ''3'' 11 1 12, tk NEWLINE [nl] 12 1 13,
      tk LABEL_NAME ''foo:'' 13 2 1, tk NEWLINE [nl] 17 2 5,
      tk NAME ''add'' 18 3 1, tk ADDRESS ''$1'' 22 3 5, tk NAME ''foo'' 25 3 8,
      tk NUMBER ''3'' 29 3 12, tk NEWLINE [nl] 30 3 13,
      tk LABEL_NAME ''foo:'' 31 4 1, tk NEWLINE [nl] 35 4 5]"

text \<open>
  The source of the end-to-end example of the spec, the tokens the lexer yields for it,
  and the same program with the line \<^verbatim>\<open>halt\<close> replaced by a second \<^verbatim>\<open>add $1 2 3\<close>.
\<close>

definition spec_example_source :: string where
  "spec_example_source = ''#memory 256'' @ [nl] @ ''start:'' @ [nl] @ '' add $1 2 3'' @ [nl]
     @ ''tick:'' @ [nl] @ '' halt'' @ [nl]"

definition spec_example_tokens :: "token list" where
  "spec_example_tokens =
     [tk META_VARIABLE ''#memory'' 0 1 1, tk NUMBER ''256'' 8 1 9, tk NEWLINE [nl] 11 1 12,
      tk LABEL_NAME ''start:'' 12 2 1, tk NEWLINE [nl] 18 2 7,
      tk NAME ''add'' 20 3 2, tk ADDRESS ''$1'' 24 3 6, tk NUMBER ''2'' 27 3 9,
      tk NUMBER ''3'' 29 3 11, tk NEWLINE [nl] 30 3 12,
      tk LABEL_NAME ''tick:'' 31 4 1, tk NEWLINE [nl] 36 4 6,
      tk NAME ''halt'' 38 5 2, tk NEWLINE [nl] 42 5 6, tk NEWLINE [nl] 43 6 1]"

definition amended_example_source :: string where
  "amended_example_source = ''#memory 256'' @ [nl] @ ''start:'' @ [nl] @ '' add $1 2 3'' @ [nl]
     @ ''tick:'' @ [nl] @ '' add $1 2 3'' @ [nl]"

definition amended_example_tokens :: "token list" where
  "amended_example_tokens =
     [tk META_VARIABLE ''#memory'' 0 1 1, tk NUMBER ''256'' 8 1 9, tk NEWLINE [nl] 11 1 12,
      tk LABEL_NAME ''start:'' 12 2 1, tk NEWLINE [nl] 18 2 7,
      tk NAME ''add'' 20 3 2, tk ADDRESS ''$1'' 24 3 6, tk NUMBER ''2'' 27 3 9,
      tk NUMBER ''3'' 29 3 11, tk NEWLINE [nl] 30 3 12,
      tk LABEL_NAME ''tick:'' 31 4 1, tk NEWLINE [nl] 36 4 6,
      tk NAME ''add'' 38 5 2, tk ADDRESS ''$1'' 42 5 6, tk NUMBER ''2'' 45 5 9,
      tk NUMBER ''3'' 47 5 11, tk NEWLINE [nl] 48 5 12, tk NEWLINE [nl] 49 6 1]"

section \<open>Facts about the first loop\<close>


lemma get_until_newline_loop_append:
  "get_until_newline_loop acc ts e0 = Inr (args, rest) \<Longrightarrow>
   get_until_newline_loop acc (ts @ suffix) e = Inr (args, rest @ suffix)"
  by (induction ts arbitrary: acc) (auto split: if_splits)

lemma get_until_newline_append:
  "get_until_newline ts e0 = Inr (args, rest) \<Longrightarrow>
   get_until_newline (ts @ suffix) e = Inr (args, rest @ suffix)"
  unfolding get_until_newline_def by (rule get_until_newline_loop_append)

lemma get_until_newline_loop_line:
  "\<forall>t\<in>set line. tname t \<noteq> NEWLINE \<Longrightarrow> tname newline = NEWLINE \<Longrightarrow>
   get_until_newline_loop acc (line @ newline # post) e
     = Inr (acc @ filter (\<lambda>t. tname t \<noteq> COMMENT) line, post)"
  by (induction line arbitrary: acc) auto

lemma enter_PROCEDURES:
  "(if compiler_state st \<noteq> PROCEDURES then st\<lparr>compiler_state := PROCEDURES\<rparr> else st)
     = st\<lparr>compiler_state := PROCEDURES\<rparr>"
  by simp

lemma loop1_step_meta:
  "tname token = META_VARIABLE \<Longrightarrow> compiler_state st = META \<Longrightarrow>
   tl (tvalue token) \<in> dom META_VARIABLES \<Longrightarrow> py_int (tvalue nxt) = Some v \<Longrightarrow>
   assemble_tokens_loop1 cat sl e (token # nxt # tokens) st
     = assemble_tokens_loop1 cat sl e tokens
         (st\<lparr>json_meta := (json_meta st)(tl (tvalue token) \<mapsto> v)\<rparr>)"
  by (simp add: assemble_tokens_loop1.simps(2))

lemma loop1_step_dup:
  "tname token = LABEL_NAME \<Longrightarrow> butlast (tvalue token) \<in> dom (labels st) \<Longrightarrow>
   warn (source_pos token) sl
     (''Label '' @ [dq] @ butlast (tvalue token) @ [dq] @ '' declared more than once.'') = Inr out \<Longrightarrow>
   assemble_tokens_loop1 cat sl e (token # tokens) st
     = assemble_tokens_loop1 cat sl e tokens
         (st\<lparr>compiler_state := PROCEDURES, stdout := stdout st @ out\<rparr>)"
  by (simp add: assemble_tokens_loop1.simps(2) enter_PROCEDURES del: if_not_P if_P)

lemma loop1_step_new:
  "tname token = LABEL_NAME \<Longrightarrow> butlast (tvalue token) \<notin> dom (labels st) \<Longrightarrow>
   assemble_tokens_loop1 cat sl e (token # tokens) st
     = assemble_tokens_loop1 cat sl e tokens
         (st\<lparr>compiler_state := PROCEDURES,
             labels := (labels st)(butlast (tvalue token) \<mapsto> instruction_index st)\<rparr>)"
  by (simp add: assemble_tokens_loop1.simps(2) enter_PROCEDURES)

lemma loop1_step_instr:
  "tname token = NAME \<Longrightarrow> tvalue token \<in> INSTRUCTIONS cat \<Longrightarrow>
   ARGUMENT_COUNT_LOOKUP cat (tvalue token) = Some (int (length args)) \<Longrightarrow>
   get_until_newline tokens e = Inr (args, tokens') \<Longrightarrow>
   assemble_tokens_loop1 cat sl e (token # tokens) st
     = assemble_tokens_loop1 cat sl e tokens'
         (st\<lparr>raw_instructions := raw_instructions st @ [(token, args)],
             instruction_index := instruction_index st + 1\<rparr>)"
  by (simp add: assemble_tokens_loop1.simps(2))

lemma loop1_step_skip:
  "tname token = COMMENT \<or> tname token = NEWLINE \<Longrightarrow>
   assemble_tokens_loop1 cat sl e (token # tokens) st
     = assemble_tokens_loop1 cat sl e tokens st"
  by (auto simp add: assemble_tokens_loop1.simps(2))

lemma loop1_Cons_InrE:
  assumes "assemble_tokens_loop1 cat sl e (token # tokens) st = Inr fin"
  obtains
    (Meta) nxt tokens' v where "tname token = META_VARIABLE" "compiler_state st = META"
      "tl (tvalue token) \<in> dom META_VARIABLES" "tokens = nxt # tokens'"
      "py_int (tvalue nxt) = Some v"
      "assemble_tokens_loop1 cat sl e tokens'
         (st\<lparr>json_meta := (json_meta st)(tl (tvalue token) \<mapsto> v)\<rparr>) = Inr fin"
  | (Dup) out where "tname token = LABEL_NAME" "butlast (tvalue token) \<in> dom (labels st)"
      "warn (source_pos token) sl
         (''Label '' @ [dq] @ butlast (tvalue token) @ [dq] @ '' declared more than once.'')
         = Inr out"
      "assemble_tokens_loop1 cat sl e tokens
         (st\<lparr>compiler_state := PROCEDURES, stdout := stdout st @ out\<rparr>) = Inr fin"
  | (New) "tname token = LABEL_NAME" "butlast (tvalue token) \<notin> dom (labels st)"
      "assemble_tokens_loop1 cat sl e tokens
         (st\<lparr>compiler_state := PROCEDURES,
             labels := (labels st)(butlast (tvalue token) \<mapsto> instruction_index st)\<rparr>) = Inr fin"
  | (Instr) args tokens' where "tname token = NAME" "tvalue token \<in> INSTRUCTIONS cat"
      "ARGUMENT_COUNT_LOOKUP cat (tvalue token) = Some (int (length args))"
      "get_until_newline tokens e = Inr (args, tokens')"
      "assemble_tokens_loop1 cat sl e tokens'
         (st\<lparr>raw_instructions := raw_instructions st @ [(token, args)],
             instruction_index := instruction_index st + 1\<rparr>) = Inr fin"
  | (Skip) "tname token = COMMENT \<or> tname token = NEWLINE"
      "assemble_tokens_loop1 cat sl e tokens st = Inr fin"
proof (cases "tname token")
  case META_VARIABLE
  with assms show ?thesis
    by (auto simp: assemble_tokens_loop1.simps(2) Let_def intro: Meta
        split: if_splits list.splits option.splits prod.splits)
next
  case LABEL_NAME
  show ?thesis
  proof (cases "butlast (tvalue token) \<in> dom (labels st)")
    case True
    with assms LABEL_NAME show ?thesis
      by (auto simp: assemble_tokens_loop1.simps(2) enter_PROCEDURES Let_def intro: Dup
          split: sum.splits prod.splits simp del: if_not_P if_P)
  next
    case False
    with assms LABEL_NAME show ?thesis
      by (auto simp: assemble_tokens_loop1.simps(2) enter_PROCEDURES Let_def intro: New
          simp del: if_not_P if_P)
  qed
next
  case NAME
  with assms show ?thesis
    by (auto simp: assemble_tokens_loop1.simps(2) Let_def intro: Instr
        split: if_splits option.splits sum.splits prod.splits)
next
  case NUMBER
  with assms show ?thesis
    by (auto simp: assemble_tokens_loop1.simps(2) split: prod.splits)
next
  case ADDRESS
  with assms show ?thesis
    by (auto simp: assemble_tokens_loop1.simps(2) split: prod.splits)
next
  case COMMENT
  with assms show ?thesis
    by (auto simp: assemble_tokens_loop1.simps(2) intro: Skip)
next
  case NEWLINE
  with assms show ?thesis
    by (auto simp: assemble_tokens_loop1.simps(2) intro: Skip)
qed


lemma loop1_append:
  "assemble_tokens_loop1 cat sl e0 pre st = Inr mid \<Longrightarrow>
   assemble_tokens_loop1 cat sl e (pre @ rest) st = assemble_tokens_loop1 cat sl e rest mid"
proof (induction pre arbitrary: st rule: length_induct)
  case (1 pre)
  show ?case
  proof (cases pre)
    case Nil
    with "1.prems" show ?thesis
      by (simp add: assemble_tokens_loop1.simps(1) split: stream_end.splits)
  next
    case (Cons token tokens)
    from "1.prems" [unfolded Cons] show ?thesis
    proof (cases rule: loop1_Cons_InrE)
      case (Meta nxt tokens' v)
      with "1.IH" Cons show ?thesis by (simp add: loop1_step_meta)
    next
      case (Dup out)
      with "1.IH" Cons show ?thesis by (simp add: loop1_step_dup)
    next
      case New
      with "1.IH" Cons show ?thesis by (simp add: loop1_step_new)
    next
      case (Instr args tokens')
      from Instr(4) have "length tokens' < length pre"
        using Cons by (auto dest: get_until_newline_length)
      with "1.IH" Instr(5) have
        "assemble_tokens_loop1 cat sl e (tokens' @ rest)
           (st\<lparr>raw_instructions := raw_instructions st @ [(token, args)],
               instruction_index := instruction_index st + 1\<rparr>)
         = assemble_tokens_loop1 cat sl e rest mid" by blast
      with Instr Cons show ?thesis
        by (simp add: loop1_step_instr [OF Instr(1-3) get_until_newline_append [OF Instr(4)]])
    next
      case Skip
      with "1.IH" Cons show ?thesis by (simp add: loop1_step_skip)
    qed
  qed
qed

lemma loop1_invariant:
  assumes run: "assemble_tokens_loop1 cat sl e tokens st = Inr fin" and P: "P st"
    and meta: "\<And>s k v. P s \<Longrightarrow> P (s\<lparr>json_meta := (json_meta s)(k \<mapsto> v)\<rparr>)"
    and dup: "\<And>s out. P s \<Longrightarrow> P (s\<lparr>compiler_state := PROCEDURES, stdout := stdout s @ out\<rparr>)"
    and new: "\<And>s name. P s \<Longrightarrow> name \<notin> dom (labels s) \<Longrightarrow>
      P (s\<lparr>compiler_state := PROCEDURES, labels := (labels s)(name \<mapsto> instruction_index s)\<rparr>)"
    and instr: "\<And>s token args. P s \<Longrightarrow>
      P (s\<lparr>raw_instructions := raw_instructions s @ [(token, args)],
           instruction_index := instruction_index s + 1\<rparr>)"
  shows "P fin"
  using run P
proof (induction tokens arbitrary: st rule: length_induct)
  case (1 tokens)
  show ?case
  proof (cases tokens)
    case Nil
    with "1.prems" show ?thesis
      by (simp add: assemble_tokens_loop1.simps(1) split: stream_end.splits)
  next
    case (Cons token rest)
    from "1.prems"(1) [unfolded Cons] show ?thesis
    proof (cases rule: loop1_Cons_InrE)
      case (Meta nxt tokens' v)
      from Meta(4) Cons have "length tokens' < length tokens" by simp
      with "1.IH" Meta(6) meta [OF "1.prems"(2)] show ?thesis by blast
    next
      case (Dup out)
      from Cons have "length rest < length tokens" by simp
      with "1.IH" Dup(4) dup [OF "1.prems"(2)] show ?thesis by blast
    next
      case New
      from Cons have "length rest < length tokens" by simp
      with "1.IH" New(3) new [OF "1.prems"(2) New(2)] show ?thesis by blast
    next
      case (Instr args tokens')
      from Instr(4) Cons have "length tokens' < length tokens"
        by (auto dest: get_until_newline_length)
      with "1.IH" Instr(5) instr [OF "1.prems"(2)] show ?thesis by blast
    next
      case Skip
      from Cons have "length rest < length tokens" by simp
      with "1.IH" Skip(2) "1.prems"(2) show ?thesis by blast
    qed
  qed
qed

lemma loop1_index_is_length:
  assumes "assemble_tokens_loop1 cat sl e tokens st = Inr fin"
    and "instruction_index st = int (length (raw_instructions st))"
  shows "instruction_index fin = int (length (raw_instructions fin))"
  using assms by (rule loop1_invariant) simp_all

lemma loop1_label_kept:
  assumes "assemble_tokens_loop1 cat sl e tokens st = Inr fin"
    and "labels st name = Some i"
  shows "labels fin name = Some i"
  using assms by (rule loop1_invariant) auto

lemma loop1_raw_prefix:
  assumes "assemble_tokens_loop1 cat sl e tokens st = Inr fin"
    and "\<exists>suffix. raw_instructions st = raw0 @ suffix"
  shows "\<exists>suffix. raw_instructions fin = raw0 @ suffix"
  using assms by (rule loop1_invariant) auto

lemma loop1_labels_bounded:
  assumes "assemble_tokens_loop1 cat sl e tokens st = Inr fin"
    and "0 \<le> instruction_index st \<and>
      (\<forall>name i. labels st name = Some i \<longrightarrow> 0 \<le> i \<and> i \<le> instruction_index st)"
  shows "0 \<le> instruction_index fin \<and>
      (\<forall>name i. labels fin name = Some i \<longrightarrow> 0 \<le> i \<and> i \<le> instruction_index fin)"
  using assms by (rule loop1_invariant) (force split: if_splits)+


lemma get_until_newline_loop_rest:
  "get_until_newline_loop acc ts e = Inr (args, rest) \<Longrightarrow>
   rest = tl (dropWhile (\<lambda>x. tname x \<noteq> NEWLINE) ts)"
  by (induction ts arbitrary: acc) (auto split: if_splits)

lemma loop1_counts_instruction_lines:
  "assemble_tokens_loop1 cat sl e tokens st = Inr fin \<Longrightarrow>
   instruction_index fin = instruction_index st + int (instruction_lines tokens)"
proof (induction tokens arbitrary: st rule: length_induct)
  case (1 tokens)
  show ?case
  proof (cases tokens)
    case Nil
    with "1.prems" show ?thesis
      by (simp add: assemble_tokens_loop1.simps(1) split: stream_end.splits)
  next
    case (Cons token rest)
    from "1.prems" [unfolded Cons] show ?thesis
    proof (cases rule: loop1_Cons_InrE)
      case (Meta nxt tokens' v)
      from Meta(4) Cons have "length tokens' < length tokens" by simp
      with "1.IH" Meta(6) have "instruction_index fin
        = instruction_index st + int (instruction_lines tokens')" by fastforce
      with Meta Cons show ?thesis by simp
    next
      case (Dup out)
      from Cons have "length rest < length tokens" by simp
      with "1.IH" Dup(4) have "instruction_index fin
        = instruction_index st + int (instruction_lines rest)" by fastforce
      with Dup Cons show ?thesis by simp
    next
      case New
      from Cons have "length rest < length tokens" by simp
      with "1.IH" New(3) have "instruction_index fin
        = instruction_index st + int (instruction_lines rest)" by fastforce
      with New Cons show ?thesis by simp
    next
      case (Instr args tokens')
      from Instr(4) Cons have "length tokens' < length tokens"
        by (auto dest: get_until_newline_length)
      with "1.IH" Instr(5) have "instruction_index fin
        = instruction_index st + 1 + int (instruction_lines tokens')" by fastforce
      moreover from Instr(4) have "tokens' = tl (dropWhile (\<lambda>x. tname x \<noteq> NEWLINE) rest)"
        unfolding get_until_newline_def by (rule get_until_newline_loop_rest)
      ultimately show ?thesis using Instr Cons by simp
    next
      case Skip
      from Cons have "length rest < length tokens" by simp
      with "1.IH" Skip(2) have "instruction_index fin
        = instruction_index st + int (instruction_lines rest)" by fastforce
      with Skip Cons show ?thesis by auto
    qed
  qed
qed

lemma lex_example_source: "lex (example_source @ [nl]) = (example_tokens, Exhausted)"
  by code_simp

lemma split_example_source: "split_nl example_source = example_lines"
  by code_simp

section \<open>The label table\<close>

text \<open>
  C3. In a program whose first loop ends without a fatal error, a label is stored with the
  number of instruction-producing lines before its first declaration: if the tokens
  \<open>pre\<close> before a LABEL_NAME token form complete statements (the loop runs through them)
  and do not declare the name, the final label table maps the name to
  \<open>instruction_lines pre\<close>, and that many instructions of the final list are the ones
  produced before the declaration.
\<close>

theorem label_index_counts_instruction_lines:
  assumes whole: "assemble_tokens_loop1 cat sl e (pre @ token # post) (initial_state cs) = Inr fin"
    and pre: "assemble_tokens_loop1 cat sl Exhausted pre (initial_state cs) = Inr mid"
    and tok: "tname token = LABEL_NAME"
    and first: "labels mid (butlast (tvalue token)) = None"
  shows "labels fin (butlast (tvalue token)) = Some (int (instruction_lines pre))
    \<and> take (instruction_lines pre) (raw_instructions fin) = raw_instructions mid"
proof -
  let ?name = "butlast (tvalue token)"
  let ?st = "mid\<lparr>compiler_state := PROCEDURES,
                 labels := (labels mid)(?name \<mapsto> instruction_index mid)\<rparr>"
  from first have notin: "?name \<notin> dom (labels mid)" by (simp add: domIff)
  have "assemble_tokens_loop1 cat sl e (pre @ token # post) (initial_state cs)
      = assemble_tokens_loop1 cat sl e (token # post) mid"
    using pre by (rule loop1_append)
  also have "\<dots> = assemble_tokens_loop1 cat sl e post ?st"
    using tok notin by (rule loop1_step_new)
  finally have rest: "assemble_tokens_loop1 cat sl e post ?st = Inr fin"
    using whole by simp
  have idx: "instruction_index mid = int (instruction_lines pre)"
    using loop1_counts_instruction_lines [OF pre] by (simp add: initial_state_def)
  have len: "instruction_index mid = int (length (raw_instructions mid))"
    using pre by (rule loop1_index_is_length) (simp add: initial_state_def)
  have "labels fin ?name = Some (instruction_index mid)"
    using rest by (rule loop1_label_kept) simp
  moreover have "\<exists>suffix. raw_instructions fin = raw_instructions mid @ suffix"
    using rest by (rule loop1_raw_prefix) simp
  ultimately show ?thesis using idx len by auto
qed

theorem label_index_counts_instruction_lines_witness:
  "labels (projr (assemble_tokens_loop1 demo_catalog example_lines Exhausted
       example_tokens (initial_state META))) ''foo'' = Some 1
   \<and> instruction_lines (take 5 example_tokens) = 1"
proof -
  let ?pre = "take 5 example_tokens"
  let ?tok = "example_tokens ! 5"
  let ?post = "drop 6 example_tokens"
  let ?whole = "assemble_tokens_loop1 demo_catalog example_lines Exhausted (?pre @ ?tok # ?post)
    (initial_state META)"
  let ?mid = "assemble_tokens_loop1 demo_catalog example_lines Exhausted ?pre (initial_state META)"
  have split: "?pre @ ?tok # ?post = example_tokens" by code_simp
  have "\<not> isl ?whole" by code_simp
  then have whole: "?whole = Inr (projr ?whole)" by simp
  have "\<not> isl ?mid" by code_simp
  then have mid: "?mid = Inr (projr ?mid)" by simp
  have tok: "tname ?tok = LABEL_NAME" by code_simp
  have first: "labels (projr ?mid) (butlast (tvalue ?tok)) = None" by code_simp
  have name: "butlast (tvalue ?tok) = ''foo''" by code_simp
  have n: "instruction_lines ?pre = 1" by code_simp
  from label_index_counts_instruction_lines [OF whole mid tok first]
  show ?thesis unfolding split name n by simp
qed




section \<open>Facts about the second loop\<close>

lemma parse_arguments_Inr:
  "parse_arguments ts lbls sl = Inr as \<Longrightarrow>
   length as = length ts \<and> (\<forall>j<length ts. parse_argument_token (ts ! j) lbls sl = Inr (as ! j))"
proof (induction ts arbitrary: as)
  case Nil
  then show ?case by simp
next
  case (Cons t ts)
  from Cons.prems obtain a as' where a: "parse_argument_token t lbls sl = Inr a"
    and as': "parse_arguments ts lbls sl = Inr as'" and as: "as = a # as'"
    by (auto split: sum.splits)
  from Cons.IH [OF as'] a as show ?case
    by (auto simp: nth_Cons split: nat.splits)
qed

lemma loop2_Inr:
  "assemble_tokens_loop2 cat sl inc lbls raw acc out = Inr (instrs, out') \<Longrightarrow>
   length instrs = length acc + length raw \<and> take (length acc) instrs = acc \<and>
   (\<forall>k<length raw. fst (instrs ! (length acc + k)) = tvalue (fst (raw ! k)) \<and>
      parse_arguments (snd (raw ! k)) lbls sl = Inr (fst (snd (instrs ! (length acc + k)))))"
proof (induction raw arbitrary: acc out)
  case Nil
  then show ?case by simp
next
  case (Cons r raw)
  obtain nt ats where r: "r = (nt, ats)" by (cases r)
  from Cons.prems r obtain first others out1 where
    args: "parse_arguments ats lbls sl = Inr (first # others)"
    and rec: "assemble_tokens_loop2 cat sl inc lbls raw
       (acc @ [(tvalue nt, first # others,
                if inc then Some (lineno (source_pos nt) - 1) else None)]) out1
       = Inr (instrs, out')"
    by (auto simp: Let_def split: sum.splits list.splits if_splits prod.splits)
  let ?d = "(tvalue nt, first # others, if inc then Some (lineno (source_pos nt) - 1) else None)"
  from Cons.IH [OF rec] have len: "length instrs = length acc + 1 + length raw"
    and tk: "take (length acc + 1) instrs = acc @ [?d]"
    and rest: "\<forall>k<length raw. fst (instrs ! (length acc + 1 + k)) = tvalue (fst (raw ! k)) \<and>
      parse_arguments (snd (raw ! k)) lbls sl = Inr (fst (snd (instrs ! (length acc + 1 + k))))"
    by simp_all
  from tk have "take (length acc) (take (length acc + 1) instrs) = acc" by simp
  then have tk0: "take (length acc) instrs = acc" by (simp add: min_def)
  from tk len have at: "instrs ! length acc = ?d"
    by (metis add.commute less_add_one nth_append_length nth_take plus_1_eq_Suc)
  show ?case
  proof (intro conjI allI impI)
    show "length instrs = length acc + length (r # raw)" using len by simp
    show "take (length acc) instrs = acc" by (rule tk0)
  next
    fix k assume k: "k < length (r # raw)"
    show "fst (instrs ! (length acc + k)) = tvalue (fst ((r # raw) ! k))"
      using k at rest r by (cases k) auto
    show "parse_arguments (snd ((r # raw) ! k)) lbls sl = Inr (fst (snd (instrs ! (length acc + k))))"
      using k at rest r args by (cases k) auto
  qed
qed

lemma assemble_tokens_InrD:
  assumes "assemble_tokens cat (tokens, e) sl cs inc = Inr (prog, out)"
  obtains st out2 where "assemble_tokens_loop1 cat sl e tokens (initial_state cs) = Inr st"
    and "assemble_tokens_loop2 cat sl inc (labels st) (raw_instructions st) [] (stdout st)
       = Inr (instructions prog, out2)"
    and "tick prog = labels st ''tick''" and "start prog = labels st ''start''"
    and "meta prog = json_meta st"
  using assms unfolding assemble_tokens_def
  by (auto split: sum.splits prod.splits)

text \<open>
  C4. In a program that assembles, two argument tokens that name the same label resolve to
  the same integer, the entry of the final label table, wherever the two instructions
  stand: the resolver is given the table as it is after the whole first loop, so a use
  before the declaration and a use after it do not differ.
\<close>
theorem label_reference_independent_of_position:
  assumes l1: "assemble_tokens_loop1 cat sl e tokens (initial_state cs) = Inr st"
    and asm: "assemble_tokens cat (tokens, e) sl cs inc = Inr (prog, out)"
    and k1: "k1 < length (raw_instructions st)" "j1 < length (snd (raw_instructions st ! k1))"
    and k2: "k2 < length (raw_instructions st)" "j2 < length (snd (raw_instructions st ! k2))"
    and n1: "tname (snd (raw_instructions st ! k1) ! j1) = NAME"
    and n2: "tname (snd (raw_instructions st ! k2) ! j2) = NAME"
    and same: "tvalue (snd (raw_instructions st ! k1) ! j1) = tvalue (snd (raw_instructions st ! k2) ! j2)"
  shows "\<exists>i. labels st (tvalue (snd (raw_instructions st ! k1) ! j1)) = Some i
    \<and> fst (snd (instructions prog ! k1)) ! j1 = AInt i
    \<and> fst (snd (instructions prog ! k2)) ! j2 = AInt i"
proof -
  from asm l1 obtain out2 where l2:
    "assemble_tokens_loop2 cat sl inc (labels st) (raw_instructions st) [] (stdout st)
       = Inr (instructions prog, out2)"
    by (auto elim!: assemble_tokens_InrD)
  have resolve: "parse_argument_token (snd (raw_instructions st ! k) ! j) (labels st) sl
      = Inr (fst (snd (instructions prog ! k)) ! j)"
    if "k < length (raw_instructions st)" "j < length (snd (raw_instructions st ! k))" for k j
    using loop2_Inr [OF l2] that parse_arguments_Inr by fastforce
  have name: "\<exists>i. labels st (tvalue t) = Some i \<and> a = AInt i"
    if "parse_argument_token t (labels st) sl = Inr a" "tname t = NAME" for t a
    using that by (auto simp: parse_argument_token_def split: option.splits prod.splits)
  from name [OF resolve [OF k1] n1] name [OF resolve [OF k2] n2] same
  show ?thesis by auto
qed

theorem label_reference_independent_of_position_witness:
  "fst (snd (instructions (fst (projr (assemble_tokens demo_catalog (example_tokens, Exhausted)
       example_lines META False))) ! 0)) ! 1 = AInt 1
   \<and> fst (snd (instructions (fst (projr (assemble_tokens demo_catalog (example_tokens, Exhausted)
       example_lines META False))) ! 1)) ! 1 = AInt 1"
proof -
  let ?l1 = "assemble_tokens_loop1 demo_catalog example_lines Exhausted example_tokens
    (initial_state META)"
  let ?asm = "assemble_tokens demo_catalog (example_tokens, Exhausted) example_lines META False"
  have "\<not> isl ?l1" by code_simp
  then have l1: "?l1 = Inr (projr ?l1)" by simp
  have "\<not> isl ?asm" by code_simp
  then have asm: "?asm = Inr (fst (projr ?asm), snd (projr ?asm))" by simp
  have k1: "0 < length (raw_instructions (projr ?l1))"
    "1 < length (snd (raw_instructions (projr ?l1) ! 0))" by code_simp+
  have k2: "1 < length (raw_instructions (projr ?l1))"
    "1 < length (snd (raw_instructions (projr ?l1) ! 1))" by code_simp+
  have n1: "tname (snd (raw_instructions (projr ?l1) ! 0) ! 1) = NAME" by code_simp
  have n2: "tname (snd (raw_instructions (projr ?l1) ! 1) ! 1) = NAME" by code_simp
  have same: "tvalue (snd (raw_instructions (projr ?l1) ! 0) ! 1)
    = tvalue (snd (raw_instructions (projr ?l1) ! 1) ! 1)" by code_simp
  have foo: "labels (projr ?l1) (tvalue (snd (raw_instructions (projr ?l1) ! 0) ! 1)) = Some 1"
    by code_simp
  from label_reference_independent_of_position [OF l1 asm k1 k2 n1 n2 same] foo
  show ?thesis by auto
qed

text \<open>
  C10. In a program that assembles, every value of the label table, and so the emitted
  \<^verbatim>\<open>tick\<close> and \<^verbatim>\<open>start\<close>, lies between 0 and the number \<open>N\<close> of instructions of the
  program. \<open>N\<close> itself is reached: a new label declared after the last token is stored
  with the index \<open>N\<close>, one past the last instruction.
\<close>
theorem label_values_within_program:
  assumes l1: "assemble_tokens_loop1 cat sl e tokens (initial_state cs) = Inr st"
    and asm: "assemble_tokens cat (tokens, e) sl cs inc = Inr (prog, out)"
  shows "(\<forall>name i. labels st name = Some i \<longrightarrow> 0 \<le> i \<and> i \<le> int (length (instructions prog)))
    \<and> (\<forall>i. tick prog = Some i \<longrightarrow> 0 \<le> i \<and> i \<le> int (length (instructions prog)))
    \<and> (\<forall>i. start prog = Some i \<longrightarrow> 0 \<le> i \<and> i \<le> int (length (instructions prog)))
    \<and> (\<forall>token. e = Exhausted \<and> tname token = LABEL_NAME
          \<and> labels st (butlast (tvalue token)) = None \<longrightarrow>
        (\<exists>st'. assemble_tokens_loop1 cat sl Exhausted (tokens @ [token]) (initial_state cs) = Inr st'
          \<and> raw_instructions st' = raw_instructions st
          \<and> labels st' (butlast (tvalue token)) = Some (int (length (instructions prog)))))"
proof -
  from asm l1 obtain out2 where l2:
    "assemble_tokens_loop2 cat sl inc (labels st) (raw_instructions st) [] (stdout st)
       = Inr (instructions prog, out2)"
    and tick: "tick prog = labels st ''tick''" and start: "start prog = labels st ''start''"
    by (auto elim!: assemble_tokens_InrD)
  from loop2_Inr [OF l2] have N: "length (instructions prog) = length (raw_instructions st)"
    by simp
  have idx: "instruction_index st = int (length (raw_instructions st))"
    using l1 by (rule loop1_index_is_length) (simp add: initial_state_def)
  have bound: "0 \<le> instruction_index st \<and>
      (\<forall>name i. labels st name = Some i \<longrightarrow> 0 \<le> i \<and> i \<le> instruction_index st)"
    using l1 by (rule loop1_labels_bounded) (simp add: initial_state_def)
  have all: "\<forall>name i. labels st name = Some i \<longrightarrow> 0 \<le> i \<and> i \<le> int (length (instructions prog))"
    using bound idx N by simp
  have trailing: "\<exists>st'. assemble_tokens_loop1 cat sl Exhausted (tokens @ [token]) (initial_state cs) = Inr st'
          \<and> raw_instructions st' = raw_instructions st
          \<and> labels st' (butlast (tvalue token)) = Some (int (length (instructions prog)))"
    if "e = Exhausted" "tname token = LABEL_NAME" "labels st (butlast (tvalue token)) = None"
    for token
  proof -
    from that(3) have "butlast (tvalue token) \<notin> dom (labels st)" by (simp add: domIff)
    with that(2) have "assemble_tokens_loop1 cat sl Exhausted (token # []) st
        = assemble_tokens_loop1 cat sl Exhausted []
           (st\<lparr>compiler_state := PROCEDURES,
               labels := (labels st)(butlast (tvalue token) \<mapsto> instruction_index st)\<rparr>)"
      by (rule loop1_step_new)
    with loop1_append [OF l1, of Exhausted "[token]"] idx N show ?thesis
      by (simp add: assemble_tokens_loop1.simps(1))
  qed
  from all tick start trailing show ?thesis by auto
qed


theorem label_values_within_program_witness:
  "labels (projr (assemble_tokens_loop1 demo_catalog example_lines Exhausted
       (example_tokens @ [tk LABEL_NAME ''end:'' 36 5 1]) (initial_state META))) ''end'' = Some 2
   \<and> length (instructions (fst (projr (assemble_tokens demo_catalog (example_tokens, Exhausted)
       example_lines META False)))) = 2"
proof -
  let ?l1 = "assemble_tokens_loop1 demo_catalog example_lines Exhausted example_tokens
    (initial_state META)"
  let ?asm = "assemble_tokens demo_catalog (example_tokens, Exhausted) example_lines META False"
  let ?tok = "tk LABEL_NAME ''end:'' 36 5 1"
  have "\<not> isl ?l1" by code_simp
  then have l1: "?l1 = Inr (projr ?l1)" by simp
  have "\<not> isl ?asm" by code_simp
  then have asm: "?asm = Inr (fst (projr ?asm), snd (projr ?asm))" by simp
  have tok: "tname ?tok = LABEL_NAME" by code_simp
  have fresh: "labels (projr ?l1) (butlast (tvalue ?tok)) = None" by code_simp
  have name: "butlast (tvalue ?tok) = ''end''" by code_simp
  have N: "length (instructions (fst (projr ?asm))) = 2" by code_simp
  from label_values_within_program [OF l1 asm] tok fresh
  obtain st' where "assemble_tokens_loop1 demo_catalog example_lines Exhausted
      (example_tokens @ [?tok]) (initial_state META) = Inr st'"
    and "labels st' (butlast (tvalue ?tok)) = Some (int (length (instructions (fst (projr ?asm)))))"
    by blast
  then show ?thesis unfolding name N by simp
qed

lemma error_printed:
  "\<exists>x rest. error pos sl message = (x, COLOR_ERROR @ ''ASSEMBLER ERROR: '' @ message @ [nl] @ rest)
     \<and> (x = SystemExit \<or> x = IndexError)"
  by (simp add: error_def Let_def split: option.splits)

section \<open>Arity errors\<close>

text \<open>
  C7. When the first loop reaches the line of a mnemonic of the catalog whose expected
  argument count is \<open>n\<close>, and the line holds a number of argument tokens (comments not
  counted) other than \<open>n\<close>, \<^verbatim>\<open>assemble_tokens\<close> ends in \<^verbatim>\<open>error\<close>: it prints the message
  with the expected and the actual count and raises (SystemExit, or IndexError when the
  line of the token is not among the source lines).
\<close>
theorem wrong_arity_is_fatal:
  assumes pre: "assemble_tokens_loop1 cat sl Exhausted pre (initial_state cs) = Inr mid"
    and tok: "tname token = NAME" "tvalue token \<in> INSTRUCTIONS cat"
    and n: "ARGUMENT_COUNT_LOOKUP cat (tvalue token) = Some n"
    and line: "\<forall>t\<in>set line. tname t \<noteq> NEWLINE" "tname newline = NEWLINE"
    and args: "args = filter (\<lambda>t. tname t \<noteq> COMMENT) line"
    and wrong: "int (length args) \<noteq> n"
  shows "\<exists>x rest. (x = SystemExit \<or> x = IndexError) \<and>
     assemble_tokens cat (pre @ token # line @ newline # post, e) sl cs inc
       = Inl (x, stdout mid @ COLOR_ERROR @ ''ASSEMBLER ERROR: ''
            @ ''Expected '' @ py_str n @ '' argument(s) for instruction ''
            @ [dq] @ tvalue token @ [dq] @ '' but got '' @ py_str (int (length args)) @ ''.''
            @ [nl] @ rest)"
proof -
  let ?msg = "arity_message n (tvalue token) (length args)"
  have g: "get_until_newline (line @ newline # post) e = Inr (args, post)"
    unfolding get_until_newline_def args using line
    by (simp add: get_until_newline_loop_line)
  have "assemble_tokens_loop1 cat sl e (pre @ token # line @ newline # post) (initial_state cs)
      = assemble_tokens_loop1 cat sl e (token # line @ newline # post) mid"
    using pre by (rule loop1_append)
  also have "\<dots> = (case error (source_pos token) sl ?msg of
       (x, out) \<Rightarrow> Inl (x, stdout mid @ out))"
    using tok n g wrong by (simp add: assemble_tokens_loop1.simps(2))
  finally have l1: "assemble_tokens_loop1 cat sl e (pre @ token # line @ newline # post)
      (initial_state cs)
    = (case error (source_pos token) sl ?msg of (x, out) \<Rightarrow> Inl (x, stdout mid @ out))" .
  from error_printed [of "source_pos token" sl ?msg] obtain x rest where
    "error (source_pos token) sl ?msg = (x, COLOR_ERROR @ ''ASSEMBLER ERROR: '' @ ?msg @ [nl] @ rest)"
    and "x = SystemExit \<or> x = IndexError" by blast
  with l1 show ?thesis
    by (auto simp: assemble_tokens_def arity_message_def)
qed


theorem wrong_arity_is_fatal_witness:
  "\<exists>x rest. assemble_tokens demo_catalog
       (take 7 example_tokens @ tk NAME ''add'' 18 3 1
          # [tk ADDRESS ''$1'' 22 3 5, tk NUMBER ''3'' 25 3 8, tk COMMENT ''; two'' 27 3 10]
          @ tk NEWLINE [nl] 32 3 15 # drop 12 example_tokens, Exhausted)
       example_lines META False
     = Inl (x, COLOR_ERROR @ ''ASSEMBLER ERROR: Expected 3 argument(s) for instruction ''
            @ [dq] @ ''add'' @ [dq] @ '' but got 2.'' @ [nl] @ rest)"
proof -
  let ?pre = "take 7 example_tokens"
  let ?tok = "tk NAME ''add'' 18 3 1"
  let ?line = "[tk ADDRESS ''$1'' 22 3 5, tk NUMBER ''3'' 25 3 8, tk COMMENT ''; two'' 27 3 10]"
  let ?args = "[tk ADDRESS ''$1'' 22 3 5, tk NUMBER ''3'' 25 3 8]"
  let ?newline = "tk NEWLINE [nl] 32 3 15"
  let ?mid = "assemble_tokens_loop1 demo_catalog example_lines Exhausted ?pre (initial_state META)"
  have "\<not> isl ?mid" by code_simp
  then have mid: "?mid = Inr (projr ?mid)" by simp
  have tok: "tname ?tok = NAME" "tvalue ?tok \<in> INSTRUCTIONS demo_catalog" by code_simp+
  have n: "ARGUMENT_COUNT_LOOKUP demo_catalog (tvalue ?tok) = Some 3" by code_simp
  have line: "\<forall>t\<in>set ?line. tname t \<noteq> NEWLINE" "tname ?newline = NEWLINE" by code_simp+
  have args: "?args = filter (\<lambda>t. tname t \<noteq> COMMENT) ?line" by code_simp
  have wrong: "int (length ?args) \<noteq> 3" by simp
  have out: "stdout (projr ?mid) = []" by code_simp
  have strs: "py_str 3 = ''3''" "py_str (int (length ?args)) = ''2''" "tvalue ?tok = ''add''"
    by code_simp+
  from wrong_arity_is_fatal [OF mid tok n line args wrong,
      of "drop 12 example_tokens" Exhausted False]
  show ?thesis unfolding out strs by auto
qed

section \<open>The argument resolver\<close>


lemma is_digit_not_space: "is_digit c \<Longrightarrow> \<not> is_space c \<and> c \<noteq> CHR ''-'' \<and> c \<noteq> CHR ''+''"
  by (auto simp: is_digit_def is_space_def Let_def)






lemma strip_id: "s \<noteq> [] \<Longrightarrow> \<not> is_space (hd s) \<Longrightarrow> \<not> is_space (last s) \<Longrightarrow> strip s = s"
proof -
  assume a: "s \<noteq> []" "\<not> is_space (hd s)" "\<not> is_space (last s)"
  then have "dropWhile is_space s = s" by (cases s) auto
  moreover from a have "dropWhile is_space (rev s) = rev s"
    by (cases "rev s") (auto simp: last_rev [symmetric] hd_rev)
  ultimately show ?thesis by (simp add: strip_def)
qed



text \<open>
  Which digit strings \<^verbatim>\<open>int\<close> accepts: every nonempty string of at most 4300 digits, and
  no string of more digits. The NUMBER and ADDRESS rules of the lexer bound no length.
\<close>

lemma digits_value_total:
  "\<forall>c\<in>set ds. is_digit c \<Longrightarrow> \<exists>n. digits_value acc ds = Some n"
  by (induction ds arbitrary: acc) auto

lemma py_int_digits:
  assumes "ds \<noteq> []" and "\<forall>c\<in>set ds. is_digit c" and "length ds \<le> max_str_digits"
  shows "\<exists>n. py_int ds = Some (int n)"
proof -
  from assms(1) obtain c cs where dc: "ds = c # cs" by (cases ds) auto
  from assms have "is_digit (hd ds)" "is_digit (last ds)" by simp_all
  then have ns: "\<not> is_space (hd ds)" "\<not> is_space (last ds)"
    and c: "c \<noteq> CHR ''-''" "c \<noteq> CHR ''+''" "is_digit c"
    using is_digit_not_space dc by auto
  from assms(1) ns have st: "strip ds = ds" by (rule strip_id)
  from assms(2) have f: "filter is_digit ds = ds" by simp
  from digits_value_total [OF assms(2), of 0] obtain n where "digits_value 0 ds = Some n" ..
  with f assms(3) c dc have "unsigned_value ds = Some n"
    by (simp add: unsigned_value_def)
  then show ?thesis unfolding py_int_def st by (simp add: dc c)
qed

lemma py_int_too_many_digits:
  assumes "\<forall>c\<in>set ds. is_digit c" and "length ds > max_str_digits"
  shows "py_int ds = None"
proof -
  from assms(2) obtain c cs where dc: "ds = c # cs" by (cases ds) auto
  from assms dc have "is_digit (hd ds)" "is_digit (last ds)" by simp_all
  then have ns: "\<not> is_space (hd ds)" "\<not> is_space (last ds)"
    and c: "c \<noteq> CHR ''-''" "c \<noteq> CHR ''+''" "is_digit c"
    using is_digit_not_space dc by auto
  from dc ns have st: "strip ds = ds" by (intro strip_id) simp_all
  from assms(1) have f: "filter is_digit ds = ds" by simp
  from f assms(2) c dc have "unsigned_value ds = None"
    by (simp add: unsigned_value_def)
  then show ?thesis unfolding py_int_def st by (simp add: dc c)
qed



text \<open>
  C6. An ADDRESS token whose digits parse to a value in the 32-bit signed range resolves to
  its own text, with the leading dollar sign, as a string: never to an integer.
\<close>

theorem address_token_keeps_text:
  assumes "tname token = ADDRESS"
    and "py_int (tl (tvalue token)) = Some v"
    and "INT_RANGE_LOWER \<le> v" and "v \<le> INT_RANGE_UPPER"
  shows "parse_argument_token token lbls source_lines = Inr (AStr (tvalue token))
    \<and> parse_argument_token token lbls source_lines \<noteq> Inr (AInt v)"
  using assms by (simp add: parse_argument_token_def)

theorem address_token_keeps_text_witness:
  "parse_argument_token
     \<lparr>tname = ADDRESS, tvalue = ''$5'', source_pos = \<lparr>idx = 4, lineno = 1, colno = 5\<rparr>\<rparr>
     Map.empty [''add $5 2 3''] = Inr (AStr ''$5'')"
proof -
  let ?t = "\<lparr>tname = ADDRESS, tvalue = ''$5'', source_pos = \<lparr>idx = 4, lineno = 1, colno = 5\<rparr>\<rparr>"
  have "tname ?t = ADDRESS" by simp
  moreover have "py_int (tl (tvalue ?t)) = Some 5" by code_simp
  moreover have "INT_RANGE_LOWER \<le> 5" "5 \<le> INT_RANGE_UPPER"
    by (simp_all add: INT_RANGE_LOWER_def INT_RANGE_UPPER_def)
  ultimately show ?thesis
    using address_token_keeps_text [of ?t 5 Map.empty "[''add $5 2 3'']"] by simp
qed

section \<open>The end-to-end example\<close>

lemma lex_spec_example:
  "lex (spec_example_source @ [nl]) = (spec_example_tokens, Exhausted)"
  by code_simp

lemma lex_amended_example:
  "lex (amended_example_source @ [nl]) = (amended_example_tokens, Exhausted)"
  by code_simp

lemmas eval_simps = tk_def initial_state_def assemble_tokens_loop1.simps get_until_newline_def
  META_VARIABLES_def py_int_def strip_def is_space_def unsigned_value_def is_digit_def
  max_str_digits_def
  digit_val_def parse_argument_token_def INT_RANGE_LOWER_def INT_RANGE_UPPER_def Let_def

lemma spec_example_tokens_fail:
  "isl (assemble_tokens cat (spec_example_tokens, Exhausted) sl META inc)"
  unfolding assemble_tokens_def spec_example_tokens_def
  by (simp add: eval_simps split: option.splits prod.splits sum.splits)

lemma spec_example_never_assembles: "isl (assemble cat spec_example_source inc)"
proof -
  let ?sl = "split_nl spec_example_source"
  from spec_example_tokens_fail [of cat ?sl inc]
  obtain x out where "assemble_tokens cat (spec_example_tokens, Exhausted) ?sl META inc = Inl (x, out)"
    by (cases "assemble_tokens cat (spec_example_tokens, Exhausted) ?sl META inc") auto
  then show ?thesis
    by (simp add: assemble_def lex_spec_example split: exn.splits prod.splits)
qed


text \<open>
  C1 (as stated). With the catalog of the example, \<^verbatim>\<open>add\<close> with three arguments and
  \<^verbatim>\<open>halt\<close> with none, the source of the spec does not assemble: the second loop reads
  \<^verbatim>\<open>instruction_args[0]\<close> of the instruction without arguments and raises IndexError.
  By \<open>spec_example_never_assembles\<close> no catalog makes this source assemble.
\<close>

theorem spec_example_counterexample:
  "assemble demo_catalog spec_example_source False = Inl (IndexError, [])"
proof -
  let ?r = "assemble demo_catalog spec_example_source False"
  have "isl ?r" by code_simp
  moreover have "projl ?r = (IndexError, [])" by code_simp
  ultimately show ?thesis by (cases ?r) auto
qed

lemma amended_loop1:
  assumes "''add'' \<in> INSTRUCTIONS cat" and "ARGUMENT_COUNT_LOOKUP cat ''add'' = Some 3"
  shows "assemble_tokens_loop1 cat sl Exhausted amended_example_tokens (initial_state META)
    = Inr \<lparr>json_meta = META_VARIABLES(''memory'' \<mapsto> 256),
           labels = [''start'' \<mapsto> 0, ''tick'' \<mapsto> 1],
           raw_instructions =
             [(tk NAME ''add'' 20 3 2,
               [tk ADDRESS ''$1'' 24 3 6, tk NUMBER ''2'' 27 3 9, tk NUMBER ''3'' 29 3 11]),
              (tk NAME ''add'' 38 5 2,
               [tk ADDRESS ''$1'' 42 5 6, tk NUMBER ''2'' 45 5 9, tk NUMBER ''3'' 47 5 11])],
           instruction_index = 2, compiler_state = PROCEDURES, stdout = []\<rparr>"
  using assms unfolding amended_example_tokens_def
  by (simp add: eval_simps)


lemma amended_loop2:
  "assemble_tokens_loop2 cat sl inc [''start'' \<mapsto> 0, ''tick'' \<mapsto> 1]
     [(tk NAME ''add'' 20 3 2,
       [tk ADDRESS ''$1'' 24 3 6, tk NUMBER ''2'' 27 3 9, tk NUMBER ''3'' 29 3 11]),
      (tk NAME ''add'' 38 5 2,
       [tk ADDRESS ''$1'' 42 5 6, tk NUMBER ''2'' 45 5 9, tk NUMBER ''3'' 47 5 11])] [] []
   = Inr ([(''add'', [AStr ''$1'', AInt 2, AInt 3], if inc then Some 2 else None),
           (''add'', [AStr ''$1'', AInt 2, AInt 3], if inc then Some 4 else None)], [])"
  by (simp add: eval_simps)

text \<open>
  C1 (amended). With a second \<^verbatim>\<open>add $1 2 3\<close> in place of the line without arguments, and
  under every catalog in which \<^verbatim>\<open>add\<close> is an instruction with three arguments, the
  source assembles, nothing is printed, and the program has memory 256, start 0, tick 1
  and exactly two resolved instructions.
\<close>

theorem amended_example_assembles:
  assumes "''add'' \<in> INSTRUCTIONS cat" and "ARGUMENT_COUNT_LOOKUP cat ''add'' = Some 3"
  shows "\<exists>prog. assemble cat amended_example_source inc = Inr (prog, [])
    \<and> meta prog ''memory'' = Some 256 \<and> start prog = Some 0 \<and> tick prog = Some 1
    \<and> map (\<lambda>d. (fst d, fst (snd d))) (instructions prog)
        = [(''add'', [AStr ''$1'', AInt 2, AInt 3]), (''add'', [AStr ''$1'', AInt 2, AInt 3])]"
  unfolding assemble_def lex_amended_example assemble_tokens_def Let_def fst_conv snd_conv
    amended_loop1 [OF assms] sum.case scan_state.simps amended_loop2 prod.case
  by simp


theorem amended_example_assembles_witness:
  "\<exists>prog. assemble demo_catalog amended_example_source False = Inr (prog, [])
    \<and> meta prog ''memory'' = Some 256 \<and> start prog = Some 0 \<and> tick prog = Some 1
    \<and> length (instructions prog) = 2"
proof -
  have 1: "''add'' \<in> INSTRUCTIONS demo_catalog" by (simp add: demo_catalog_def)
  have 2: "ARGUMENT_COUNT_LOOKUP demo_catalog ''add'' = Some 3"
    by (simp add: demo_catalog_def)
  from amended_example_assembles [OF 1 2, of False] obtain prog where
    p: "assemble demo_catalog amended_example_source False = Inr (prog, [])
      \<and> meta prog ''memory'' = Some 256 \<and> start prog = Some 0 \<and> tick prog = Some 1
      \<and> map (\<lambda>d. (fst d, fst (snd d))) (instructions prog)
        = [(''add'', [AStr ''$1'', AInt 2, AInt 3]), (''add'', [AStr ''$1'', AInt 2, AInt 3])]"
    by (rule exE)
  then have "length (map (\<lambda>d. (fst d, fst (snd d))) (instructions prog)) = 2" by simp
  then have "length (instructions prog) = 2" by simp
  with p show ?thesis by (intro exI [of _ prog]) simp
qed

section \<open>Label names in the lexer\<close>

text \<open>
  A LABEL_NAME token never starts with a digit: at a digit the NUMBER rule, which is tried
  before, matches.
\<close>

lemma minus_not_digit: "\<not> is_digit CHR ''-''"
  by (simp add: is_digit_def)

lemma LABEL_NAME_not_digit_start:
  "first_match rules cs = Some (LABEL_NAME, k) \<Longrightarrow> cs \<noteq> [] \<and> \<not> is_digit (hd cs)"
  by (auto simp: minus_not_digit rules_def match_META_VARIABLE_def match_NUMBER_def match_ADDRESS_def
      match_LABEL_NAME_def split: list.splits if_splits option.splits)

text \<open>
  C8. The claim is that exactly the identifiers of letters, digits and underscores (not
  starting with a digit) followed by a colon are LABEL_NAME tokens. The class \<^verbatim>\<open>[A-z]\<close> of
  the rule also holds the six characters between \<^verbatim>\<open>Z\<close> and \<^verbatim>\<open>a\<close>: the text \<^verbatim>\<open>^foo:\<close> is one
  LABEL_NAME token, though \<^verbatim>\<open>^\<close> is no letter, digit or underscore.
\<close>

theorem label_name_accepts_non_identifier:
  "lex (''^foo:'' @ [nl])
     = ([tk LABEL_NAME ''^foo:'' 0 1 1, tk NEWLINE [nl] 5 1 6], Exhausted)
   \<and> \<not> (is_digit CHR ''^'' \<or> CHR ''^'' = CHR ''_''
        \<or> (of_char CHR ''^'' :: nat) \<in> {65..90} \<union> {97..122})"
  by code_simp

section \<open>The caret of a diagnostic\<close>

text \<open>
  C9. The claim is that the caret stands under the token on every line. The line is shown
  with its 1-based number, but the caret is indented by the number of digits of the
  0-based number: for a token in column 1 of line 10 the line printed is
  \<^verbatim>\<open>10 | halt 1\<close>, five characters before the text, and the caret is indented by four.
\<close>

theorem caret_misaligned_on_line_10:
  "error \<lparr>idx = 45, lineno = 10, colno = 1\<rparr> (replicate 10 ''halt 1'') ''m''
     = (SystemExit, COLOR_ERROR @ ''ASSEMBLER ERROR: m'' @ [nl]
          @ ''10 | halt 1'' @ [nl]
          @ ''    ^'' @ [nl] @ COLOR_RESET)
   \<and> warn \<lparr>idx = 45, lineno = 10, colno = 1\<rparr> (replicate 10 ''halt 1'') ''m''
     = Inr (COLOR_WARN @ ''ASSEMBLER WARNING: m'' @ [nl]
          @ ''10 | halt 1'' @ [nl]
          @ ''    ^'' @ [nl] @ COLOR_RESET)
   \<and> length ''    '' < length ''10 | '' + nat (colno \<lparr>idx = 45, lineno = 10, colno = 1\<rparr> - 1)"
  by code_simp

end
